theory Spec2Isabelle
  imports Complex_Main "HOL-Library.Word"
begin

unbundle bit_operations_syntax

section \<open>JavaScript values\<close>

text \<open>
  A JavaScript string is a sequence of UTF-16 code units; \<open>length\<close> counts code units, and a
  regular expression without the \<open>u\<close> flag matches code units. A \<open>Buffer\<close> is a sequence of
  bytes. \<open>Date.now()\<close> is an integer number of milliseconds.
\<close>

type_synonym jschar = "16 word"
type_synonym jsstring = "jschar list"
type_synonym byte = "8 word"

text \<open>A string literal of the source, all of whose characters are ASCII.\<close>

definition js :: "string \<Rightarrow> jsstring" where
  "js s = map (\<lambda>c. word_of_nat (of_char c)) s"

text \<open>
  The values a parsed request body and its fields can hold. A number is the exact rational
  value of the double (a JSON text gives no NaN, and an overflowing literal gives an infinity
  that every comparison of this program treats as a number above the ceiling). An array is
  kept by its length, the only property of an array the program reads. An object as the value
  of a field is kept by what \<open>x.length > n\<close> compares: the number that its \<open>length\<close>
  property converts to, or nothing when it has no such property or the conversion is NaN.
\<close>

datatype jsval =
  JUndefined | JNull | JBool bool | JNum rat | JStr jsstring | JArr nat | JObj "rat option"

text \<open>\<open>!v\<close> is \<open>\<not> truthy v\<close>.\<close>

fun truthy :: "jsval \<Rightarrow> bool" where
  "truthy JUndefined = False"
| "truthy JNull = False"
| "truthy (JBool b) = b"
| "truthy (JNum r) = (r \<noteq> 0)"
| "truthy (JStr s) = (s \<noteq> [])"
| "truthy (JArr n) = True"
| "truthy (JObj l) = True"

text \<open>A header, a query parameter or an environment variable: absent, or a string.\<close>

definition truthy_str :: "jsstring option \<Rightarrow> bool" where
  "truthy_str v = (case v of None \<Rightarrow> False | Some s \<Rightarrow> s \<noteq> [])"

text \<open>\<open>a || b\<close> on two such values.\<close>

definition or_str :: "jsstring option \<Rightarrow> jsstring option \<Rightarrow> jsstring option" where
  "or_str a b = (if truthy_str a then a else b)"

text \<open>
  The body of a request: an object, of which the program reads the three properties
  \<open>donor_name\<close>, \<open>amount\<close> and \<open>message\<close> (\<open>JUndefined\<close> when the object has no such
  property), or anything else (\<open>undefined\<close> when there is no body, \<open>null\<close>, a primitive,
  an array).
\<close>

record payload =
  donor_name :: jsval
  amount :: jsval
  message :: jsval

datatype body = NonObject jsval | Object payload

datatype js_error = RangeError | TypeError

section \<open>Whitespace, trimming and the name pattern\<close>

text \<open>
  The class \<open>\s\<close> of a JavaScript regular expression, which is also what
  \<open>String.prototype.trim\<close> strips: WhiteSpace and LineTerminator of ECMAScript.
\<close>

definition is_js_space :: "jschar \<Rightarrow> bool" where
  "is_js_space c \<longleftrightarrow>
     c = 0x09 \<or> c = 0x0A \<or> c = 0x0B \<or> c = 0x0C \<or> c = 0x0D \<or> c = 0x20 \<or> c = 0xA0 \<or>
     c = 0x1680 \<or> (0x2000 \<le> c \<and> c \<le> 0x200A) \<or> c = 0x2028 \<or> c = 0x2029 \<or>
     c = 0x202F \<or> c = 0x205F \<or> c = 0x3000 \<or> c = 0xFEFF"

definition trim :: "jsstring \<Rightarrow> jsstring" where
  "trim s = rev (dropWhile is_js_space (rev (dropWhile is_js_space s)))"

text \<open>One character of the class \<open>[a-zA-Z0-9\s_-]\<close>.\<close>

definition name_char :: "jschar \<Rightarrow> bool" where
  "name_char c \<longleftrightarrow>
     (0x61 \<le> c \<and> c \<le> 0x7A) \<or> (0x41 \<le> c \<and> c \<le> 0x5A) \<or> (0x30 \<le> c \<and> c \<le> 0x39) \<or>
     is_js_space c \<or> c = 0x5F \<or> c = 0x2D"

text \<open>\<open>/^[a-zA-Z0-9\s_-]+$/.test(s)\<close>: no flag, so the anchors are the ends of the string.\<close>

definition name_pattern :: "jsstring \<Rightarrow> bool" where
  "name_pattern s \<longleftrightarrow> s \<noteq> [] \<and> list_all name_char s"

section \<open>Buffers, hex digests and the timing-safe comparison\<close>

text \<open>
  \<open>Buffer.from(s)\<close> encodes the string in UTF-8: a surrogate pair gives four bytes, a
  surrogate on its own gives the three bytes of U+FFFD.
\<close>

definition utf8_2 :: "jschar \<Rightarrow> byte list" where
  "utf8_2 c = [0xC0 OR ucast (drop_bit 6 c), 0x80 OR ucast (c AND 0x3F)]"

definition utf8_3 :: "jschar \<Rightarrow> byte list" where
  "utf8_3 c = [0xE0 OR ucast (drop_bit 12 c), 0x80 OR ucast (drop_bit 6 c AND 0x3F),
               0x80 OR ucast (c AND 0x3F)]"

definition utf8_4 :: "jschar \<Rightarrow> jschar \<Rightarrow> byte list" where
  "utf8_4 hi lo =
     (let p = (0x10000 :: 32 word) + push_bit 10 (ucast (hi AND 0x3FF)) + ucast (lo AND 0x3FF)
      in [0xF0 OR ucast (drop_bit 18 p), 0x80 OR ucast (drop_bit 12 p AND 0x3F),
          0x80 OR ucast (drop_bit 6 p AND 0x3F), 0x80 OR ucast (p AND 0x3F)])"

fun Buffer_from :: "jsstring \<Rightarrow> byte list" where
  "Buffer_from [] = []"
| "Buffer_from [c] =
     (if c < 0x80 then [ucast c]
      else if c < 0x800 then utf8_2 c
      else if 0xD800 \<le> c \<and> c < 0xE000 then utf8_3 0xFFFD
      else utf8_3 c)"
| "Buffer_from (c # d # cs) =
     (if c < 0x80 then ucast c # Buffer_from (d # cs)
      else if c < 0x800 then utf8_2 c @ Buffer_from (d # cs)
      else if 0xD800 \<le> c \<and> c < 0xDC00 \<and> 0xDC00 \<le> d \<and> d < 0xE000
        then utf8_4 c d @ Buffer_from cs
      else if 0xD800 \<le> c \<and> c < 0xE000 then utf8_3 0xFFFD @ Buffer_from (d # cs)
      else utf8_3 c @ Buffer_from (d # cs))"

text \<open>The bytes of an \<open>n\<close>-byte digest, most significant first, and their lower-case hex.\<close>

definition word_bytes :: "nat \<Rightarrow> 'a::len word \<Rightarrow> byte list" where
  "word_bytes n w = map (\<lambda>i. ucast (drop_bit (8 * (n - 1 - i)) w)) [0..<n]"

definition hex_digit :: "nat \<Rightarrow> jschar" where
  "hex_digit n = (if n < 10 then 0x30 + word_of_nat n else 0x61 + word_of_nat (n - 10))"

definition hex :: "byte list \<Rightarrow> jsstring" where
  "hex bs = concat (map (\<lambda>b. [hex_digit (unat b div 16), hex_digit (unat b mod 16)]) bs)"

text \<open>
  \<open>crypto.timingSafeEqual(a, b)\<close> throws a RangeError when the two buffers differ in byte
  length, and otherwise says whether they are equal.
\<close>

definition timingSafeEqual :: "byte list \<Rightarrow> byte list \<Rightarrow> js_error + bool" where
  "timingSafeEqual a b = (if length a \<noteq> length b then Inl RangeError else Inr (a = b))"

section \<open>The state of the process\<close>

text \<open>
  The key of the duplicate check is the template string
  \<open>${donor_name}_${amount}_${Date.now()}\<close>. The number and the time print without an
  underscore and distinct numbers print differently, so two such strings are equal exactly when
  the three components are: the model keeps the three components.
\<close>

type_synonym donation_key = "jsstring \<times> rat \<times> int"

record donation =
  don_id :: jsstring
  don_donor_name :: jsstring
  don_amount :: rat
  don_message :: jsstring
  timestamp :: int
  processed :: bool

text \<open>
  The module-level variables of the two handlers, and the callbacks that \<open>setTimeout\<close> has
  scheduled and not yet run, each with the time (of the timer's clock) at which it is due.
\<close>

record state =
  donations :: "donation list"
  webhookRateLimit :: "jsstring option \<rightharpoonup> int list"
  recentDonationIds :: "donation_key set"
  pendingTimeouts :: "(int \<times> donation_key) list"
  robloxRateLimit :: "jsstring \<rightharpoonup> int list"

definition initial_state :: state where
  "initial_state = \<lparr>donations = [], webhookRateLimit = Map.empty, recentDonationIds = {},
     pendingTimeouts = [], robloxRateLimit = Map.empty\<rparr>"

definition MAX_DONATIONS :: nat where "MAX_DONATIONS = 100"
definition DONATION_EXPIRY :: int where "DONATION_EXPIRY = 5 * 60 * 1000"
definition WEBHOOK_RATE_LIMIT :: nat where "WEBHOOK_RATE_LIMIT = 10"
definition RATE_LIMIT_WINDOW :: int where "RATE_LIMIT_WINDOW = 60 * 1000"
definition DUPLICATE_CHECK_WINDOW :: int where "DUPLICATE_CHECK_WINDOW = 10 * 60 * 1000"
definition ROBLOX_RATE_LIMIT :: nat where "ROBLOX_RATE_LIMIT = 60"

section \<open>The webhook handler\<close>

text \<open>
  \<open>validateWebhookSignature(payload, signature, secret)\<close>. The HMAC-SHA256 of the crypto
  library is the parameter \<open>H\<close> (key, then message), and \<open>json\<close> is
  \<open>JSON.stringify(payload)\<close>, which is \<open>undefined\<close> (here \<open>None\<close>) for an undefined payload;
  \<open>hmac.update(undefined)\<close> throws a TypeError. Nothing in the function catches an exception.
\<close>

definition validateWebhookSignature ::
  "(byte list \<Rightarrow> byte list \<Rightarrow> 256 word) \<Rightarrow> jsstring option \<Rightarrow> jsstring option \<Rightarrow>
     jsstring option \<Rightarrow> js_error + bool" where
  "validateWebhookSignature H json signature secret =
     (if \<not> truthy_str signature \<or> \<not> truthy_str secret then Inr False
      else case json of
        None \<Rightarrow> Inl TypeError
      | Some text \<Rightarrow>
          (let calculatedSignature = hex (word_bytes 32 (H (Buffer_from (the secret)) (Buffer_from text)))
           in timingSafeEqual (Buffer_from (the signature)) (Buffer_from calculatedSignature)))"

text \<open>\<open>checkRateLimit(ip)\<close>, with \<open>now\<close> the value of its \<open>Date.now()\<close>.\<close>

definition checkRateLimit :: "int \<Rightarrow> jsstring option \<Rightarrow> state \<Rightarrow> bool \<times> state" where
  "checkRateLimit now ip st =
     (let requests = (case webhookRateLimit st ip of None \<Rightarrow> [] | Some r \<Rightarrow> r);
          validRequests = filter (\<lambda>time. now - time < RATE_LIMIT_WINDOW) requests
      in if length validRequests \<ge> WEBHOOK_RATE_LIMIT then (False, st)
         else (True, st\<lparr>webhookRateLimit := (webhookRateLimit st)(ip \<mapsto> validRequests @ [now])\<rparr>))"

text \<open>
  \<open>isDuplicate(donationId)\<close>, with \<open>tick\<close> the reading of the timer's clock when
  \<open>setTimeout\<close> is called.
\<close>

definition isDuplicate :: "int \<Rightarrow> donation_key \<Rightarrow> state \<Rightarrow> bool \<times> state" where
  "isDuplicate tick donationId st =
     (if donationId \<in> recentDonationIds st then (True, st)
      else (False, st\<lparr>recentDonationIds := insert donationId (recentDonationIds st),
                      pendingTimeouts := pendingTimeouts st @ [(tick + DUPLICATE_CHECK_WINDOW, donationId)]\<rparr>))"

text \<open>
  The event loop runs, between two requests, the callbacks that are due: each deletes its
  key from the set.
\<close>

definition runTimeouts :: "int \<Rightarrow> state \<Rightarrow> state" where
  "runTimeouts tick st =
     st\<lparr>recentDonationIds :=
          recentDonationIds st - snd ` set (filter (\<lambda>(due, k). due \<le> tick) (pendingTimeouts st)),
        pendingTimeouts := filter (\<lambda>(due, k). \<not> due \<le> tick) (pendingTimeouts st)\<rparr>"

text \<open>\<open>cleanupExpiredDonations()\<close> on the array, with \<open>now\<close> the value of its \<open>Date.now()\<close>.\<close>

definition cleanupExpiredDonations :: "int \<Rightarrow> donation list \<Rightarrow> donation list" where
  "cleanupExpiredDonations now ds = filter (\<lambda>d. now - timestamp d < DONATION_EXPIRY) ds"

text \<open>
  \<open>validateDonationData(data)\<close>. Reading a property of a truthy value that is not an object
  gives \<open>undefined\<close>. \<open>data.message.length\<close> is a number for a string and for an array,
  whatever the property holds for an object, and \<open>undefined\<close> otherwise; the comparison
  \<open>undefined > 200\<close> is false.
\<close>

fun prop_of :: "body \<Rightarrow> (payload \<Rightarrow> jsval) \<Rightarrow> jsval" where
  "prop_of (NonObject v) f = JUndefined"
| "prop_of (Object p) f = f p"

fun truthy_body :: "body \<Rightarrow> bool" where
  "truthy_body (NonObject v) = truthy v"
| "truthy_body (Object p) = True"

fun length_gt :: "jsval \<Rightarrow> nat \<Rightarrow> bool" where
  "length_gt (JStr s) n = (length s > n)"
| "length_gt (JArr k) n = (k > n)"
| "length_gt (JObj (Some r)) n = (r > of_nat n)"
| "length_gt v n = False"

fun typeof :: "jsval \<Rightarrow> string" where
  "typeof JUndefined = ''undefined''"
| "typeof JNull = ''object''"
| "typeof (JBool b) = ''boolean''"
| "typeof (JNum r) = ''number''"
| "typeof (JStr s) = ''string''"
| "typeof (JArr n) = ''object''"
| "typeof (JObj l) = ''object''"

text \<open>The string and the number of a value whose \<open>typeof\<close> has been checked.\<close>

fun str_of :: "jsval \<Rightarrow> jsstring" where
  "str_of (JStr s) = s"
| "str_of v = []"

fun num_of :: "jsval \<Rightarrow> rat" where
  "num_of (JNum r) = r"
| "num_of v = 0"

definition validateDonationData :: "body \<Rightarrow> bool" where
  "validateDonationData data =
     (if \<not> truthy_body data then False
      else if \<not> truthy (prop_of data donor_name) \<or> typeof (prop_of data donor_name) \<noteq> ''string''
        then False
      else if \<not> truthy (prop_of data amount) \<or> typeof (prop_of data amount) \<noteq> ''number''
        then False
      else if num_of (prop_of data amount) \<le> 0 \<or> num_of (prop_of data amount) > 100000000
        then False
      else if length (str_of (prop_of data donor_name)) > 50 then False
      else if \<not> name_pattern (str_of (prop_of data donor_name)) then False
      else if truthy (prop_of data message) \<and> length_gt (prop_of data message) 200 then False
      else True)"

text \<open>
  What the handler reads from outside the process state: the request, the environment variable
  \<open>WEBHOOK_SECRET\<close>, the successive values of \<open>Date.now()\<close> (in \<open>checkRateLimit\<close>, in the
  donation key, in the \<open>timestamp\<close> of the donation and in \<open>cleanupExpiredDonations\<close>), the
  timer's clock at \<open>setTimeout\<close>, and the sixteen bytes of \<open>crypto.randomBytes(16)\<close>.
  \<open>body_json\<close> is \<open>JSON.stringify(req.body)\<close>, \<open>None\<close> for an undefined body.
\<close>

datatype http_method = GET | POST | OPTIONS | OtherMethod

record webhook_request =
  req_method :: http_method
  x_forwarded_for :: "jsstring option"
  remoteAddress :: "jsstring option"
  x_webhook_signature :: "jsstring option"
  x_saweria_signature :: "jsstring option"
  req_body :: body
  body_json :: "jsstring option"
  WEBHOOK_SECRET :: "jsstring option"
  now_limit :: int
  now_key :: int
  timer_tick :: int
  now_stamp :: int
  now_sweep :: int
  randomBytes16 :: "128 word"

record public_donation =
  pub_id :: jsstring
  pub_donor_name :: jsstring
  pub_amount :: rat
  pub_message :: jsstring
  pub_timestamp :: int

text \<open>The responses of the two handlers: a status code and a JSON body.\<close>

datatype response =
    Preflight
  | MethodNotAllowed
  | TooManyRequests
  | InvalidSignature
  | InvalidDonationData
  | DuplicateIgnored
  | DonationReceived jsstring
  | InternalServerError
  | Unauthorized
  | DonationsSent "public_donation list"

fun status_code :: "response \<Rightarrow> nat" where
  "status_code Preflight = 200"
| "status_code MethodNotAllowed = 405"
| "status_code TooManyRequests = 429"
| "status_code InvalidSignature = 401"
| "status_code InvalidDonationData = 400"
| "status_code DuplicateIgnored = 200"
| "status_code (DonationReceived i) = 200"
| "status_code InternalServerError = 500"
| "status_code Unauthorized = 401"
| "status_code (DonationsSent ds) = 200"

text \<open>Whether a response says that the donation was stored.\<close>

fun received :: "response \<Rightarrow> bool" where
  "received (DonationReceived i) = True"
| "received r = False"

text \<open>
  \<open>donationData.message ? donationData.message.trim() : ''\<close>: a truthy value that is not a
  string has no \<open>trim\<close> method, and calling it throws a TypeError.
\<close>

fun message_text :: "jsval \<Rightarrow> js_error + jsstring" where
  "message_text (JStr s) = Inr (if s = [] then [] else trim s)"
| "message_text v = (if truthy v then Inl TypeError else Inr [])"

text \<open>
  Lines 339 to 348 of the handler: the donation is pushed, the first element of the array is
  shifted out when the array has more than \<open>MAX_DONATIONS\<close> elements, and the expired
  donations are swept.
\<close>

definition push_and_shift :: "donation \<Rightarrow> donation list \<Rightarrow> donation list" where
  "push_and_shift d ds =
     (let ds' = ds @ [d] in if length ds' > MAX_DONATIONS then tl ds' else ds')"

definition store_donation :: "int \<Rightarrow> donation \<Rightarrow> donation list \<Rightarrow> donation list" where
  "store_donation now d ds = cleanupExpiredDonations now (push_and_shift d ds)"

text \<open>
  The signature branch of the handler: the verifier is called only when both the secret and a
  signature are there.
\<close>

definition signature_branch ::
  "(byte list \<Rightarrow> byte list \<Rightarrow> 256 word) \<Rightarrow> webhook_request \<Rightarrow> js_error + bool" where
  "signature_branch H rq =
     (let signature = or_str (x_webhook_signature rq) (x_saweria_signature rq);
          webhookSecret = WEBHOOK_SECRET rq
      in if truthy_str webhookSecret \<and> truthy_str signature
         then validateWebhookSignature H (body_json rq) signature webhookSecret
         else Inr True)"

text \<open>
  The handler exported by the webhook module. An exception thrown inside its \<open>try\<close> block is
  caught at the end of the handler, which answers 500; what was written to the state before
  the exception stays written.
\<close>

definition webhook ::
  "(byte list \<Rightarrow> byte list \<Rightarrow> 256 word) \<Rightarrow> webhook_request \<Rightarrow> state \<Rightarrow> response \<times> state" where
  "webhook H rq st =
     (if req_method rq = OPTIONS then (Preflight, st)
      else if req_method rq \<noteq> POST then (MethodNotAllowed, st)
      else
        let clientIp = or_str (x_forwarded_for rq) (remoteAddress rq);
            (allowed, st1) = checkRateLimit (now_limit rq) clientIp st
        in if \<not> allowed then (TooManyRequests, st1)
        else case signature_branch H rq of
          Inl e \<Rightarrow> (InternalServerError, st1)
        | Inr isValid \<Rightarrow>
            if \<not> isValid then (InvalidSignature, st1)
            else
              let donationData = req_body rq
              in if \<not> validateDonationData donationData then (InvalidDonationData, st1)
              else
                let donationId = (str_of (prop_of donationData donor_name),
                                  num_of (prop_of donationData amount), now_key rq);
                    (dup, st2) = isDuplicate (timer_tick rq) donationId st1
                in if dup then (DuplicateIgnored, st2)
                else case message_text (prop_of donationData message) of
                  Inl e \<Rightarrow> (InternalServerError, st2)
                | Inr msg \<Rightarrow>
                    let dono = \<lparr>don_id = hex (word_bytes 16 (randomBytes16 rq)),
                                don_donor_name = trim (str_of (prop_of donationData donor_name)),
                                don_amount = num_of (prop_of donationData amount),
                                don_message = msg,
                                timestamp = now_stamp rq,
                                processed = False\<rparr>
                    in (DonationReceived (don_id dono),
                        st2\<lparr>donations := store_donation (now_sweep rq) dono (donations st2)\<rparr>))"

section \<open>The donations handler\<close>

text \<open>
  \<open>validateApiKey(apiKey)\<close>, with \<open>validApiKey\<close> the environment variable \<open>API_KEY\<close>. The
  comparison is inside a \<open>try\<close> whose \<open>catch\<close> returns false.
\<close>

definition validateApiKey :: "jsstring option \<Rightarrow> jsstring option \<Rightarrow> bool" where
  "validateApiKey validApiKey apiKey =
     (if \<not> truthy_str validApiKey then False
      else if \<not> truthy_str apiKey then False
      else case timingSafeEqual (Buffer_from (the apiKey)) (Buffer_from (the validApiKey)) of
        Inl e \<Rightarrow> False
      | Inr r \<Rightarrow> r)"

text \<open>\<open>checkRobloxRateLimit(identifier)\<close>, with \<open>now\<close> the value of its \<open>Date.now()\<close>.\<close>

definition checkRobloxRateLimit :: "int \<Rightarrow> jsstring \<Rightarrow> state \<Rightarrow> bool \<times> state" where
  "checkRobloxRateLimit now identifier st =
     (let requests = (case robloxRateLimit st identifier of None \<Rightarrow> [] | Some r \<Rightarrow> r);
          validRequests = filter (\<lambda>time. now - time < RATE_LIMIT_WINDOW) requests
      in if length validRequests \<ge> ROBLOX_RATE_LIMIT then (False, st)
         else (True, st\<lparr>robloxRateLimit := (robloxRateLimit st)(identifier \<mapsto> validRequests @ [now])\<rparr>))"

text \<open>
  Lines 90 to 110 of the handler: the donations that are not processed are selected in the
  order of the array, each of them is marked in place, and their public fields are returned.
\<close>

definition mark_processed :: "donation list \<Rightarrow> donation list" where
  "mark_processed ds = map (\<lambda>d. if \<not> processed d then d\<lparr>processed := True\<rparr> else d) ds"

definition public_fields :: "donation \<Rightarrow> public_donation" where
  "public_fields d = \<lparr>pub_id = don_id d, pub_donor_name = don_donor_name d,
     pub_amount = don_amount d, pub_message = don_message d, pub_timestamp = timestamp d\<rparr>"

definition take_unprocessed :: "donation list \<Rightarrow> donation list \<times> donation list" where
  "take_unprocessed ds =
     (let unprocessedDonations = filter (\<lambda>d. \<not> processed d) ds
      in (unprocessedDonations, mark_processed ds))"

text \<open>
  What the donations handler reads from outside the process state: the method of the request,
  its \<open>x-api-key\<close> header and its \<open>key\<close> query parameter, the environment variable
  \<open>API_KEY\<close>, and the value of \<open>Date.now()\<close> in \<open>checkRobloxRateLimit\<close>.
\<close>

record donations_request =
  get_method :: http_method
  x_api_key :: "jsstring option"
  query_key :: "jsstring option"
  API_KEY :: "jsstring option"
  now_roblox :: int

text \<open>
  The handler exported by the donations module; \<open>S\<close> is the SHA-256 of the crypto library.
\<close>

definition donations_handler ::
  "(byte list \<Rightarrow> 256 word) \<Rightarrow> donations_request \<Rightarrow> state \<Rightarrow> response \<times> state" where
  "donations_handler S rq st =
     (if get_method rq = OPTIONS then (Preflight, st)
      else if get_method rq \<noteq> GET then (MethodNotAllowed, st)
      else
        let apiKey = or_str (x_api_key rq) (query_key rq)
        in if \<not> validateApiKey (API_KEY rq) apiKey then (Unauthorized, st)
        else
          let identifier = take 16 (hex (word_bytes 32 (S (Buffer_from (the apiKey)))));
              (allowed, st1) = checkRobloxRateLimit (now_roblox rq) identifier st
          in if \<not> allowed then (TooManyRequests, st1)
          else
            let (unprocessedDonations, ds') = take_unprocessed (donations st1)
            in (DonationsSent (map public_fields unprocessedDonations), st1\<lparr>donations := ds'\<rparr>))"

section \<open>Runs of the process\<close>

text \<open>
  The handlers have no \<open>await\<close>, so each runs to its end before anything else does: a run of
  the process is a sequence of webhook requests, donations requests and turns of the event loop
  in which the due timeouts fire (at the given reading of the timer's clock).
\<close>

datatype event = Submit webhook_request | Poll donations_request | Timers int

fun step ::
  "(byte list \<Rightarrow> byte list \<Rightarrow> 256 word) \<Rightarrow> (byte list \<Rightarrow> 256 word) \<Rightarrow> event \<Rightarrow> state \<Rightarrow>
     response list \<times> state" where
  "step H S (Submit rq) st = (let (r, st') = webhook H rq st in ([r], st'))"
| "step H S (Poll rq) st = (let (r, st') = donations_handler S rq st in ([r], st'))"
| "step H S (Timers tick) st = ([], runTimeouts tick st)"

fun run ::
  "(byte list \<Rightarrow> byte list \<Rightarrow> 256 word) \<Rightarrow> (byte list \<Rightarrow> 256 word) \<Rightarrow> event list \<Rightarrow> state \<Rightarrow>
     response list \<times> state" where
  "run H S [] st = ([], st)"
| "run H S (e # es) st =
     (let (rs, st') = step H S e st; (rs', st'') = run H S es st' in (rs @ rs', st''))"

text \<open>The ids of the donations that a list of responses has handed to the consumer.\<close>

fun sent_ids :: "response \<Rightarrow> jsstring list" where
  "sent_ids (DonationsSent ps) = map pub_id ps"
| "sent_ids r = []"

definition delivered :: "response list \<Rightarrow> jsstring list" where
  "delivered rs = concat (map sent_ids rs)"

text \<open>The ids of the donations of the store that are not yet processed.\<close>

definition pending_ids :: "donation list \<Rightarrow> jsstring list" where
  "pending_ids ds = map don_id (filter (\<lambda>d. \<not> processed d) ds)"

text \<open>The ids that the webhook requests of a run draw from \<open>crypto.randomBytes\<close>.\<close>

fun drawn_id :: "event \<Rightarrow> jsstring list" where
  "drawn_id (Submit rq) = [hex (word_bytes 16 (randomBytes16 rq))]"
| "drawn_id e = []"

definition drawn_ids :: "event list \<Rightarrow> jsstring list" where
  "drawn_ids es = concat (map drawn_id es)"

text \<open>
  The values of \<open>Date.now()\<close> that the webhook requests of a run read for the \<open>timestamp\<close>
  of a donation, in the order of the run.
\<close>

fun stamp_of :: "event \<Rightarrow> int list" where
  "stamp_of (Submit rq) = [now_stamp rq]"
| "stamp_of e = []"

definition stamps :: "event list \<Rightarrow> int list" where
  "stamps es = concat (map stamp_of es)"

text \<open>
  A sequence of admissions into the store, each the donation and the time at which its sweep
  reads the clock.
\<close>

fun admit_all :: "(int \<times> donation) list \<Rightarrow> donation list \<Rightarrow> donation list" where
  "admit_all [] ds = ds"
| "admit_all ((now, d) # xs) ds = admit_all xs (store_donation now d ds)"

section \<open>Example requests\<close>

definition alice_5000 :: body where
  "alice_5000 = Object \<lparr>donor_name = JStr (js ''Alice''), amount = JNum 5000, message = JUndefined\<rparr>"

text \<open>A POST of that body with no signature header, to a deployment with no secret.\<close>

definition plain_post :: webhook_request where
  "plain_post = \<lparr>req_method = POST, x_forwarded_for = Some (js ''203.0.113.7''),
     remoteAddress = None, x_webhook_signature = None, x_saweria_signature = None,
     req_body = alice_5000, body_json = Some (js ''{\"donor_name\":\"Alice\",\"amount\":5000}''),
     WEBHOOK_SECRET = None, now_limit = 0, now_key = 0, timer_tick = 0, now_stamp = 0,
     now_sweep = 0, randomBytes16 = 0\<rparr>"

text \<open>
  Stand-ins for the two hash functions of the crypto library in the examples: the theorems
  hold for every function in their place.
\<close>

definition zero_hmac :: "byte list \<Rightarrow> byte list \<Rightarrow> 256 word" where
  "zero_hmac k m = 0"

definition zero_sha :: "byte list \<Rightarrow> 256 word" where
  "zero_sha m = 0"

text \<open>
  The same POST to a deployment with a secret: with no signature header, with a header of
  64 characters that is not the digest, and with a header of 3 characters.
\<close>

definition unsigned_post :: webhook_request where
  "unsigned_post = plain_post\<lparr>WEBHOOK_SECRET := Some (js ''s3cret'')\<rparr>"

definition forged_post :: webhook_request where
  "forged_post = plain_post\<lparr>WEBHOOK_SECRET := Some (js ''s3cret''),
     x_webhook_signature := Some (replicate 64 0x66)\<rparr>"

definition short_signature_post :: webhook_request where
  "short_signature_post = plain_post\<lparr>WEBHOOK_SECRET := Some (js ''s3cret''),
     x_webhook_signature := Some (js ''abc'')\<rparr>"

text \<open>A state in which the address of these requests has used its ten calls of the minute.\<close>

definition throttled :: state where
  "throttled = initial_state\<lparr>webhookRateLimit := [Some (js ''203.0.113.7'') \<mapsto> replicate 10 0]\<rparr>"

text \<open>A GET of the donations with the configured key.\<close>

definition keyed_get :: donations_request where
  "keyed_get = \<lparr>get_method = GET, x_api_key = Some (js ''k3y''), query_key = None,
     API_KEY = Some (js ''k3y''), now_roblox = 0\<rparr>"

text \<open>A donation of the store, for the examples.\<close>

definition donation_at :: "nat \<Rightarrow> donation" where
  "donation_at n = \<lparr>don_id = replicate n 0x61, don_donor_name = js ''Alice'',
     don_amount = 5000, don_message = [], timestamp = int n, processed = False\<rparr>"

text \<open>101 admissions, one per millisecond.\<close>

definition burst :: "(int \<times> donation) list" where
  "burst = map (\<lambda>n. (int n, donation_at n)) [0..<101]"

text \<open>
  101 admissions of which the first hundred come one per millisecond and the last one five
  minutes later.
\<close>

definition late_donation :: donation where
  "late_donation = (donation_at 100)\<lparr>timestamp := 300100\<rparr>"

definition stale_burst :: "(int \<times> donation) list" where
  "stale_burst = map (\<lambda>n. (int n, donation_at n)) [0..<100] @ [(300100, late_donation)]"

text \<open>
  The second POST of the same donor name and amount, one millisecond after \<open>plain_post\<close>,
  and a GET ten minutes later.
\<close>

definition next_post :: webhook_request where
  "next_post = plain_post\<lparr>now_limit := 1, now_key := 1, timer_tick := 1, now_stamp := 1,
     now_sweep := 1, randomBytes16 := 1\<rparr>"

text \<open>
  Two POSTs of that body between which the clock of the machine is set back: the first reads
  10 at every \<open>Date.now()\<close>, the second reads 5.
\<close>

definition post_at_10 :: webhook_request where
  "post_at_10 = plain_post\<lparr>now_limit := 10, now_key := 10, timer_tick := 10, now_stamp := 10,
     now_sweep := 10\<rparr>"

definition post_at_5 :: webhook_request where
  "post_at_5 = plain_post\<lparr>now_limit := 5, now_key := 5, timer_tick := 11, now_stamp := 5,
     now_sweep := 5, randomBytes16 := 1\<rparr>"

text \<open>A retry of \<open>plain_post\<close> that reads the same millisecond.\<close>

definition retry_post :: webhook_request where
  "retry_post = plain_post\<lparr>randomBytes16 := 1\<rparr>"

definition late_get :: donations_request where
  "late_get = keyed_get\<lparr>now_roblox := 600000\<rparr>"

text \<open>
  The character class as the specification writes it, \<open>[A-Za-z0-9 _-]\<close>: letters, digits,
  the space, the underscore and the hyphen.
\<close>

definition spec_name_char :: "jschar \<Rightarrow> bool" where
  "spec_name_char c \<longleftrightarrow>
     (0x41 \<le> c \<and> c \<le> 0x5A) \<or> (0x61 \<le> c \<and> c \<le> 0x7A) \<or> (0x30 \<le> c \<and> c \<le> 0x39) \<or>
     c = 0x20 \<or> c = 0x5F \<or> c = 0x2D"

section \<open>Digests are 64 ASCII characters\<close>

lemma length_hex: "length (hex bs) = 2 * length bs"
  by (induction bs) (simp_all add: hex_def)

lemma length_word_bytes: "length (word_bytes n w) = n"
  by (simp add: word_bytes_def)

lemma Buffer_from_ascii: "list_all (\<lambda>c. c < 0x80) s \<Longrightarrow> Buffer_from s = map ucast s"
  by (induction s rule: Buffer_from.induct) simp_all

lemma hex_digit_ascii: "n < 16 \<Longrightarrow> hex_digit n < 0x80"
proof -
  assume n: "n < 16"
  have "unat (hex_digit n) = (if n < 10 then 48 + n else 87 + n)"
    using n by (simp add: hex_digit_def unat_word_ariths unat_of_nat)
  then show ?thesis
    using n by (simp add: word_less_nat_alt)
qed

lemma hex_ascii: "list_all (\<lambda>c. c < 0x80) (hex bs)"
proof (induction bs)
  case Nil
  show ?case by (simp add: hex_def)
next
  case (Cons b bs)
  have "unat b < 2 ^ 8" using unsigned_less[of b, where 'a = nat] by simp
  then have "unat b div 16 < 16" by simp
  moreover have "unat b mod 16 < 16" by simp
  ultimately show ?case using Cons by (simp add: hex_def hex_digit_ascii)
qed

lemma length_Buffer_hex: "length (Buffer_from (hex bs)) = 2 * length bs"
  by (simp add: Buffer_from_ascii hex_ascii length_hex)

lemma word_bytes_0: "word_bytes n 0 = replicate n 0"
  by (simp add: word_bytes_def map_replicate_const)

lemma hex_replicate_0: "hex (replicate n 0) = replicate (2 * n) 0x30"
  by (induction n) (simp_all add: hex_def hex_digit_def)

lemma Buffer_from_replicate: "c < 0x80 \<Longrightarrow> Buffer_from (replicate n c) = replicate n (ucast c)"
  by (simp add: Buffer_from_ascii list_all_iff map_replicate)

section \<open>Evaluating the examples\<close>

lemmas example_simps =
  plain_post_def unsigned_post_def forged_post_def short_signature_post_def throttled_def
  initial_state_def alice_5000_def zero_hmac_def zero_sha_def keyed_get_def js_def
  next_post_def late_get_def retry_post_def post_at_10_def post_at_5_def

lemmas webhook_simps =
  webhook_def checkRateLimit_def or_str_def signature_branch_def truthy_str_def
  validateWebhookSignature_def timingSafeEqual_def isDuplicate_def validateDonationData_def
  name_pattern_def name_char_def is_js_space_def Let_def store_donation_def push_and_shift_def
  cleanupExpiredDonations_def trim_def word_bytes_0 hex_replicate_0 Buffer_from_replicate
  WEBHOOK_RATE_LIMIT_def RATE_LIMIT_WINDOW_def MAX_DONATIONS_def DONATION_EXPIRY_def
  DUPLICATE_CHECK_WINDOW_def

section \<open>The admission limiter\<close>

text \<open>
  Claim C9. A call of either limiter prunes the stored timestamps of the identity to those less
  than 60 seconds old. When 10 (webhook) or 60 (donations) of them are left, the call is refused
  and the state is what it was. Otherwise the call is allowed and the state differs only at the
  identity, which now holds the pruned timestamps followed by the current time.
\<close>

theorem limiter_prunes_then_rejects_or_appends:
  fixes now :: int and st :: state
  defines "pruned \<equiv> \<lambda>stored. filter (\<lambda>t. now - t < 60000) (case stored of None \<Rightarrow> [] | Some r \<Rightarrow> r)"
  shows "(fst (checkRateLimit now ip st) \<longleftrightarrow> length (pruned (webhookRateLimit st ip)) < 10)
    \<and> (\<not> fst (checkRateLimit now ip st) \<longrightarrow> snd (checkRateLimit now ip st) = st)
    \<and> (fst (checkRateLimit now ip st) \<longrightarrow> snd (checkRateLimit now ip st) =
          st\<lparr>webhookRateLimit := (webhookRateLimit st)(ip \<mapsto> pruned (webhookRateLimit st ip) @ [now])\<rparr>)
    \<and> (fst (checkRobloxRateLimit now ident st) \<longleftrightarrow> length (pruned (robloxRateLimit st ident)) < 60)
    \<and> (\<not> fst (checkRobloxRateLimit now ident st) \<longrightarrow> snd (checkRobloxRateLimit now ident st) = st)
    \<and> (fst (checkRobloxRateLimit now ident st) \<longrightarrow> snd (checkRobloxRateLimit now ident st) =
          st\<lparr>robloxRateLimit := (robloxRateLimit st)(ident \<mapsto> pruned (robloxRateLimit st ident) @ [now])\<rparr>)"
  by (simp add: pruned_def checkRateLimit_def checkRobloxRateLimit_def Let_def
      RATE_LIMIT_WINDOW_def WEBHOOK_RATE_LIMIT_def ROBLOX_RATE_LIMIT_def not_le)

theorem limiter_witness:
  "fst (checkRateLimit 61000 (Some (js ''10.0.0.1''))
         (initial_state\<lparr>webhookRateLimit := [Some (js ''10.0.0.1'') \<mapsto> [1000, 2000]]\<rparr>))
   \<and> webhookRateLimit (snd (checkRateLimit 61000 (Some (js ''10.0.0.1''))
         (initial_state\<lparr>webhookRateLimit := [Some (js ''10.0.0.1'') \<mapsto> [1000, 2000]]\<rparr>)))
        (Some (js ''10.0.0.1'')) = Some [2000, 61000]
   \<and> \<not> fst (checkRateLimit 61000 None
         (initial_state\<lparr>webhookRateLimit := [None \<mapsto> 1000 # replicate 10 2000]\<rparr>))
   \<and> snd (checkRateLimit 61000 None
         (initial_state\<lparr>webhookRateLimit := [None \<mapsto> 1000 # replicate 10 2000]\<rparr>))
       = initial_state\<lparr>webhookRateLimit := [None \<mapsto> 1000 # replicate 10 2000]\<rparr>
   \<and> fst (checkRobloxRateLimit 61000 (js ''0123456789abcdef'')
         (initial_state\<lparr>robloxRateLimit := [js ''0123456789abcdef'' \<mapsto> replicate 59 2000]\<rparr>))
   \<and> \<not> fst (checkRobloxRateLimit 61000 (js ''0123456789abcdef'')
         (initial_state\<lparr>robloxRateLimit := [js ''0123456789abcdef'' \<mapsto> replicate 60 2000]\<rparr>))"
  using limiter_prunes_then_rejects_or_appends
      [of 61000 "Some (js ''10.0.0.1'')"
          "initial_state\<lparr>webhookRateLimit := [Some (js ''10.0.0.1'') \<mapsto> [1000, 2000]]\<rparr>"
          "js ''0123456789abcdef''"]
    limiter_prunes_then_rejects_or_appends
      [of 61000 None "initial_state\<lparr>webhookRateLimit := [None \<mapsto> 1000 # replicate 10 2000]\<rparr>"
          "js ''0123456789abcdef''"]
    limiter_prunes_then_rejects_or_appends
      [of 61000 None "initial_state\<lparr>robloxRateLimit := [js ''0123456789abcdef'' \<mapsto> replicate 59 2000]\<rparr>"
          "js ''0123456789abcdef''"]
    limiter_prunes_then_rejects_or_appends
      [of 61000 None "initial_state\<lparr>robloxRateLimit := [js ''0123456789abcdef'' \<mapsto> replicate 60 2000]\<rparr>"
          "js ''0123456789abcdef''"]
  by (simp add: initial_state_def)

section \<open>The order of the checks of the webhook handler\<close>

lemma webhook_store_unchanged:
  "\<not> received (fst (webhook H rq st)) \<Longrightarrow> donations (snd (webhook H rq st)) = donations st"
  by (auto simp: webhook_def checkRateLimit_def isDuplicate_def Let_def
      split: if_splits sum.splits prod.splits)

text \<open>
  Claim C1, as the code has it. For a POST the checks run in the order rate limit, signature,
  validation, duplicate, and the first that fails gives the response: 429 with the state as it
  was; 401 and 400 with only the limiter's entry for the caller written; the duplicate
  acknowledgement likewise. A response that is not the receipt of the donation leaves the store
  of donations as it was.
\<close>

theorem webhook_check_order:
  fixes rq :: webhook_request and st :: state
  defines "ip \<equiv> or_str (x_forwarded_for rq) (remoteAddress rq)"
  defines "st1 \<equiv> snd (checkRateLimit (now_limit rq) ip st)"
  defines "k \<equiv> (str_of (prop_of (req_body rq) donor_name), num_of (prop_of (req_body rq) amount),
                 now_key rq)"
  assumes post: "req_method rq = POST"
  shows "(\<not> fst (checkRateLimit (now_limit rq) ip st) \<longrightarrow> webhook H rq st = (TooManyRequests, st))
    \<and> (fst (checkRateLimit (now_limit rq) ip st) \<and> signature_branch H rq = Inr False \<longrightarrow>
         webhook H rq st = (InvalidSignature, st1))
    \<and> (fst (checkRateLimit (now_limit rq) ip st) \<and> signature_branch H rq = Inr True
         \<and> \<not> validateDonationData (req_body rq) \<longrightarrow>
         webhook H rq st = (InvalidDonationData, st1))
    \<and> (fst (checkRateLimit (now_limit rq) ip st) \<and> signature_branch H rq = Inr True
         \<and> validateDonationData (req_body rq) \<and> k \<in> recentDonationIds st \<longrightarrow>
         webhook H rq st = (DuplicateIgnored, st1))
    \<and> (\<not> received (fst (webhook H rq st)) \<longrightarrow> donations (snd (webhook H rq st)) = donations st)"
proof -
  have rl: "recentDonationIds st1 = recentDonationIds st"
    by (simp add: st1_def checkRateLimit_def Let_def)
  have un: "\<not> fst (checkRateLimit (now_limit rq) ip st) \<Longrightarrow>
      snd (checkRateLimit (now_limit rq) ip st) = st"
    by (simp add: checkRateLimit_def Let_def split: if_splits)
  show ?thesis
    using post rl un webhook_store_unchanged[of H rq st]
    by (auto simp: webhook_def Let_def ip_def st1_def k_def isDuplicate_def split: prod.splits)
qed

theorem webhook_check_order_witness:
  "req_method plain_post = POST
   \<and> webhook zero_hmac plain_post throttled = (TooManyRequests, throttled)
   \<and> fst (webhook zero_hmac forged_post initial_state) = InvalidSignature
   \<and> fst (webhook zero_hmac (plain_post\<lparr>req_body := NonObject JNull\<rparr>) initial_state)
       = InvalidDonationData
   \<and> fst (webhook zero_hmac plain_post (initial_state\<lparr>recentDonationIds := {(js ''Alice'', 5000, 0)}\<rparr>))
       = DuplicateIgnored
   \<and> donations (snd (webhook zero_hmac forged_post initial_state)) = []"
  using webhook_check_order [where rq = plain_post and H = zero_hmac and st = throttled]
    webhook_check_order [where rq = forged_post and H = zero_hmac and st = initial_state]
    webhook_check_order [where rq = "plain_post\<lparr>req_body := NonObject JNull\<rparr>" and H = zero_hmac
      and st = initial_state]
    webhook_check_order [where rq = plain_post and H = zero_hmac
      and st = "initial_state\<lparr>recentDonationIds := {(js ''Alice'', 5000, 0)}\<rparr>"]
  by (simp add: example_simps webhook_simps)

text \<open>
  The order of claim C1 (signature first) fails: a request whose signature does not verify,
  from an address that has used its ten calls, is answered 429 and not 401.
\<close>

theorem rate_limit_precedes_signature:
  "signature_branch zero_hmac forged_post = Inr False
   \<and> webhook zero_hmac forged_post throttled = (TooManyRequests, throttled)"
  by (simp add: example_simps webhook_simps)

section \<open>The signature verifier\<close>

text \<open>
  Claim C2 at a failing input. With a secret and a presented signature of three bytes, the
  comparison of \<open>validateWebhookSignature\<close> gets buffers of 3 and 64 bytes and throws a
  RangeError, for every payload and every HMAC; the handler answers 500.
\<close>

theorem short_signature_throws:
  "validateWebhookSignature H (Some text) (Some (js ''abc'')) (Some (js ''s3cret'')) = Inl RangeError
   \<and> fst (webhook H short_signature_post initial_state) = InternalServerError"
  by (simp add: validateWebhookSignature_def truthy_str_def js_def timingSafeEqual_def
      length_Buffer_hex length_word_bytes webhook_def plain_post_def short_signature_post_def
      initial_state_def checkRateLimit_def or_str_def signature_branch_def Let_def
      WEBHOOK_RATE_LIMIT_def RATE_LIMIT_WINDOW_def)

theorem short_signature_witness:
  "validateWebhookSignature zero_hmac (body_json short_signature_post)
     (x_webhook_signature short_signature_post) (WEBHOOK_SECRET short_signature_post)
     = Inl RangeError
   \<and> status_code (fst (webhook zero_hmac short_signature_post initial_state)) = 500"
  using short_signature_throws
      [of zero_hmac "js ''{\"donor_name\":\"Alice\",\"amount\":5000}''"]
  by (simp add: short_signature_post_def plain_post_def)

text \<open>
  Claim C3, as the code has it. The handler calls the verifier only when a secret is configured
  and a signature is presented: when either is missing the signature branch passes and the
  response is never 401; when both are there the branch is the verifier's result, and a result
  of false is answered 401 with the store and the duplicate set as they were.
\<close>

theorem signature_checked_only_when_both_present:
  fixes rq :: webhook_request
  defines "signature \<equiv> or_str (x_webhook_signature rq) (x_saweria_signature rq)"
  shows "(\<not> (truthy_str (WEBHOOK_SECRET rq) \<and> truthy_str signature) \<longrightarrow>
           signature_branch H rq = Inr True \<and> fst (webhook H rq st) \<noteq> InvalidSignature)
    \<and> (truthy_str (WEBHOOK_SECRET rq) \<and> truthy_str signature \<longrightarrow>
           signature_branch H rq =
             validateWebhookSignature H (body_json rq) signature (WEBHOOK_SECRET rq))
    \<and> (req_method rq = POST
         \<and> fst (checkRateLimit (now_limit rq) (or_str (x_forwarded_for rq) (remoteAddress rq)) st)
         \<and> signature_branch H rq = Inr False \<longrightarrow>
           fst (webhook H rq st) = InvalidSignature
           \<and> donations (snd (webhook H rq st)) = donations st
           \<and> recentDonationIds (snd (webhook H rq st)) = recentDonationIds st)"
  by (auto simp: signature_def signature_branch_def webhook_def Let_def checkRateLimit_def
      split: prod.splits sum.splits if_splits)

theorem signature_witness:
  "signature_branch zero_hmac unsigned_post = Inr True
   \<and> fst (webhook zero_hmac unsigned_post initial_state) \<noteq> InvalidSignature
   \<and> signature_branch zero_hmac forged_post = Inr False
   \<and> fst (webhook zero_hmac forged_post initial_state) = InvalidSignature
   \<and> donations (snd (webhook zero_hmac forged_post initial_state)) = []"
  using signature_checked_only_when_both_present [of unsigned_post zero_hmac initial_state]
    signature_checked_only_when_both_present [of forged_post zero_hmac initial_state]
  by (simp add: example_simps webhook_simps)

text \<open>
  Claim C3 as stated fails: with a secret configured, a submission that presents no signature
  is admitted and stored.
\<close>

theorem unsigned_submission_admitted:
  "truthy_str (WEBHOOK_SECRET unsigned_post)
   \<and> or_str (x_webhook_signature unsigned_post) (x_saweria_signature unsigned_post) = None
   \<and> fst (webhook zero_hmac unsigned_post initial_state) = DonationReceived (replicate 32 0x30)
   \<and> donations (snd (webhook zero_hmac unsigned_post initial_state)) =
       [\<lparr>don_id = replicate 32 0x30, don_donor_name = js ''Alice'', don_amount = 5000,
         don_message = [], timestamp = 0, processed = False\<rparr>]"
  by (simp add: example_simps webhook_simps)

section \<open>The payload validator\<close>

lemma name_char_eq: "name_char = (\<lambda>c. spec_name_char c \<or> is_js_space c)"
  by (rule ext) (auto simp: name_char_def spec_name_char_def is_js_space_def)

text \<open>
  Claim C8, as the code has it. The validator accepts exactly an object whose \<open>donor_name\<close> is
  a string of 1 to 50 code units, each a letter, a digit, an underscore, a hyphen or a character
  of the whitespace class \<open>\s\<close>; whose \<open>amount\<close> is a number above 0 and at most
  100,000,000; and whose \<open>message\<close> is not a truthy value whose \<open>length\<close> is above
  200, the length of a string or of an array or the number that the \<open>length\<close> property of
  an object converts to.
\<close>

theorem validator_accepts_iff:
  "validateDonationData data \<longleftrightarrow>
     (\<exists>name a msg. data = Object \<lparr>donor_name = JStr name, amount = JNum a, message = msg\<rparr>
        \<and> name \<noteq> [] \<and> length name \<le> 50
        \<and> list_all (\<lambda>c. spec_name_char c \<or> is_js_space c) name
        \<and> 0 < a \<and> a \<le> 100000000
        \<and> \<not> (truthy msg \<and> length_gt msg 200))"
proof (cases data)
  case (NonObject v)
  then show ?thesis by (simp add: validateDonationData_def)
next
  case (Object p)
  obtain n a m where p: "p = \<lparr>donor_name = n, amount = a, message = m\<rparr>"
    by (cases p) auto
  show ?thesis
    unfolding Object p
    by (cases n; cases a) (auto simp: validateDonationData_def name_pattern_def name_char_eq)
qed

theorem validator_witness:
  "validateDonationData alice_5000
   \<and> \<not> validateDonationData
         (Object \<lparr>donor_name = JStr (js ''Al!ce''), amount = JNum 100, message = JUndefined\<rparr>)
   \<and> \<not> validateDonationData
         (Object \<lparr>donor_name = JStr (js ''Alice''), amount = JNum 0, message = JUndefined\<rparr>)
   \<and> \<not> validateDonationData
         (Object \<lparr>donor_name = JStr (js ''Alice''), amount = JNum 5000,
                  message = JStr (replicate 201 0x61)\<rparr>)
   \<and> \<not> validateDonationData (NonObject JUndefined)"
  using validator_accepts_iff [of alice_5000]
    validator_accepts_iff
      [of "Object \<lparr>donor_name = JStr (js ''Al!ce''), amount = JNum 100, message = JUndefined\<rparr>"]
    validator_accepts_iff
      [of "Object \<lparr>donor_name = JStr (js ''Alice''), amount = JNum 0, message = JUndefined\<rparr>"]
    validator_accepts_iff
      [of "Object \<lparr>donor_name = JStr (js ''Alice''), amount = JNum 5000,
                   message = JStr (replicate 201 0x61)\<rparr>"]
    validator_accepts_iff [of "NonObject JUndefined"]
  by (simp add: alice_5000_def js_def spec_name_char_def is_js_space_def)

text \<open>
  Claim C8 as stated fails: a name with a tab in it, a character outside
  \<open>[A-Za-z0-9 _-]\<close>, is accepted.
\<close>

theorem validator_accepts_tab:
  "validateDonationData
     (Object \<lparr>donor_name = JStr [0x41, 0x6C, 0x09, 0x63, 0x65], amount = JNum 100,
              message = JUndefined\<rparr>)
   \<and> \<not> list_all spec_name_char [0x41, 0x6C, 0x09, 0x63, 0x65]"
  by (simp add: validateDonationData_def name_pattern_def name_char_def is_js_space_def
      spec_name_char_def)

section \<open>The credential check of the donations handler\<close>

text \<open>
  Claim C10. With no \<open>API_KEY\<close> in the environment the check is false for every presented
  key, and a GET is answered 401 with the state as it was. The check is a boolean in every case:
  it is true exactly when both keys are there and have the same bytes, and when the byte lengths
  differ the comparison throws and the check is false.
\<close>

theorem api_key_check_fails_closed:
  "(\<not> truthy_str configured \<longrightarrow> validateApiKey configured presented = False)
   \<and> (get_method rq = GET \<and> \<not> truthy_str (API_KEY rq) \<longrightarrow>
        donations_handler S rq st = (Unauthorized, st))
   \<and> validateApiKey configured presented =
        (truthy_str configured \<and> truthy_str presented
         \<and> Buffer_from (the presented) = Buffer_from (the configured))
   \<and> (length (Buffer_from k) \<noteq> length (Buffer_from v) \<longrightarrow>
        timingSafeEqual (Buffer_from k) (Buffer_from v) = Inl RangeError
        \<and> (v \<noteq> [] \<longrightarrow> validateApiKey (Some v) (Some k) = False))"
  by (auto simp: validateApiKey_def donations_handler_def timingSafeEqual_def Let_def truthy_str_def
      split: option.splits)

theorem api_key_witness:
  "donations_handler zero_sha (keyed_get\<lparr>API_KEY := None\<rparr>) initial_state
     = (Unauthorized, initial_state)
   \<and> validateApiKey None (Some (js ''k3y'')) = False
   \<and> timingSafeEqual (Buffer_from (js ''k3y'')) (Buffer_from (js ''longer key'')) = Inl RangeError
   \<and> validateApiKey (Some (js ''longer key'')) (Some (js ''k3y'')) = False"
  using api_key_check_fails_closed [of None "Some (js ''k3y'')" "keyed_get\<lparr>API_KEY := None\<rparr>"
      zero_sha initial_state "js ''k3y''" "js ''longer key''"]
  by (simp add: keyed_get_def js_def truthy_str_def)

section \<open>The capacity of the store\<close>

lemma push_and_shift_below: "length ds < 100 \<Longrightarrow> push_and_shift d ds = ds @ [d]"
  by (simp add: push_and_shift_def MAX_DONATIONS_def)

lemma push_and_shift_full: "length ds = 100 \<Longrightarrow> push_and_shift d ds = tl ds @ [d]"
  by (cases ds) (simp_all add: push_and_shift_def MAX_DONATIONS_def)

lemma length_push_and_shift: "length ds \<le> 100 \<Longrightarrow> length (push_and_shift d ds) \<le> 100"
  by (simp add: push_and_shift_def MAX_DONATIONS_def Let_def)

lemma set_push_and_shift: "set (push_and_shift d ds) \<subseteq> set ds \<union> {d}"
  by (cases ds) (auto simp: push_and_shift_def Let_def)

lemma length_store_donation: "length ds \<le> 100 \<Longrightarrow> length (store_donation now d ds) \<le> 100"
  unfolding store_donation_def cleanupExpiredDonations_def
  using length_push_and_shift[of ds d] length_filter_le[of _ "push_and_shift d ds"]
  by (meson le_trans)

lemma webhook_capacity:
  "length (donations st) \<le> 100 \<Longrightarrow> length (donations (snd (webhook H rq st))) \<le> 100"
  by (auto simp: webhook_def checkRateLimit_def isDuplicate_def Let_def length_store_donation
      split: if_splits sum.splits prod.splits)

lemma length_mark_processed: "length (mark_processed ds) = length ds"
  by (simp add: mark_processed_def)

lemma donations_handler_capacity:
  "length (donations (snd (donations_handler S q st))) = length (donations st)"
  by (auto simp: donations_handler_def checkRobloxRateLimit_def take_unprocessed_def Let_def
      length_mark_processed split: if_splits prod.splits)

lemma step_capacity:
  "length (donations st) \<le> 100 \<Longrightarrow> length (donations (snd (step H S e st))) \<le> 100"
  by (cases e) (simp_all add: webhook_capacity donations_handler_capacity runTimeouts_def split_beta)

lemma run_capacity:
  "length (donations st) \<le> 100 \<Longrightarrow> length (donations (snd (run H S es st))) \<le> 100"
proof (induction es arbitrary: st)
  case Nil
  then show ?case by simp
next
  case (Cons e es)
  from Cons.prems have "length (donations (snd (step H S e st))) \<le> 100"
    by (rule step_capacity)
  then have "length (donations (snd (run H S es (snd (step H S e st))))) \<le> 100"
    by (rule Cons.IH)
  then show ?case by (simp add: split_beta)
qed

lemma store_donation_fresh:
  assumes "\<forall>e \<in> set ds. t0 \<le> timestamp e" and "t0 \<le> timestamp d" and "now - t0 < DONATION_EXPIRY"
  shows "store_donation now d ds = push_and_shift d ds"
proof -
  from assms set_push_and_shift[of d ds] have "\<forall>e \<in> set (push_and_shift d ds). now - timestamp e < DONATION_EXPIRY"
    by fastforce
  then show ?thesis
    by (simp add: store_donation_def cleanupExpiredDonations_def)
qed

lemma admit_all_fresh:
  assumes "\<forall>(now, d) \<in> set xs. t0 \<le> timestamp d \<and> now - t0 < DONATION_EXPIRY"
    and "\<forall>e \<in> set ds. t0 \<le> timestamp e" and "length ds \<le> 100"
  shows "admit_all xs ds = drop (length ds + length xs - 100) (ds @ map snd xs)"
  using assms
proof (induction xs arbitrary: ds)
  case Nil
  then show ?case by simp
next
  case (Cons x xs)
  obtain now d where x: "x = (now, d)" by (cases x)
  let ?ds' = "push_and_shift d ds"
  have st: "store_donation now d ds = ?ds'"
    using Cons.prems x by (intro store_donation_fresh[where ?t0.0 = t0]) auto
  have sub: "set ?ds' \<subseteq> set ds \<union> {d}"
    by (rule set_push_and_shift)
  have fresh': "\<forall>e \<in> set ?ds'. t0 \<le> timestamp e"
    using sub Cons.prems x by fastforce
  have len': "length ?ds' \<le> 100"
    using Cons.prems by (simp add: length_push_and_shift)
  have IH: "admit_all xs ?ds' = drop (length ?ds' + length xs - 100) (?ds' @ map snd xs)"
    using Cons.prems fresh' len' by (intro Cons.IH) auto
  show ?case
  proof (cases "length ds < 100")
    case True
    then show ?thesis
      using IH st x by (simp add: push_and_shift_below)
  next
    case False
    with Cons.prems have full: "length ds = 100" by simp
    then have ne: "ds \<noteq> []" by auto
    have shape: "?ds' = tl ds @ [d]"
      using full by (rule push_and_shift_full)
    have e1: "length ?ds' + length xs - 100 = length xs"
      using full ne by (simp add: shape)
    have e2: "length ds + length (x # xs) - 100 = Suc (length xs)"
      using full by simp
    have e3: "?ds' @ map snd xs = tl (ds @ map snd (x # xs))"
      using ne x by (simp add: shape)
    have "admit_all (x # xs) ds = admit_all xs ?ds'"
      using st x by simp
    also have "\<dots> = drop (length xs) (tl (ds @ map snd (x # xs)))"
      using IH by (simp only: e1 e3)
    also have "\<dots> = drop (Suc (length xs)) (ds @ map snd (x # xs))"
      by (simp only: drop_Suc)
    finally show ?thesis
      by (simp only: e2)
  qed
qed

lemma admit_101:
  assumes len: "length xs = 101"
    and fresh: "\<forall>(now, e) \<in> set xs. t0 \<le> timestamp e \<and> now - t0 < 300000"
  shows "admit_all xs [] = tl (map snd xs)"
proof -
  from fresh have "\<forall>(now, e) \<in> set xs. t0 \<le> timestamp e \<and> now - t0 < DONATION_EXPIRY"
    by (simp add: DONATION_EXPIRY_def)
  then have "admit_all xs [] = drop (length ([] :: donation list) + length xs - 100) ([] @ map snd xs)"
    by (rule admit_all_fresh) simp_all
  then show ?thesis
    using len by (simp add: drop_Suc)
qed

lemma first_absent:
  assumes "distinct (map f xs)" and "xs \<noteq> []"
  shows "f (hd xs) \<notin> f ` set (tl xs)"
  using assms by (cases xs) auto

text \<open>
  Claim C6, as the code has it. An admission into a store of at most 100 donations leaves at
  most 100, so the store never holds more in a run that starts with at most 100. The capacity step appends below 100
  donations, and at 100 it removes the first element of the array, the one inserted longest
  ago, and nothing else, whatever its \<open>processed\<close> flag or age. From the empty store, 101
  admissions of which none expires on the way leave the last 100 in order: the store has size
  100, and the first admitted donation is not in it when the ids are distinct.
\<close>

theorem store_capacity_fifo:
  "(length ds \<le> 100 \<longrightarrow> length (store_donation now d ds) \<le> 100)
   \<and> (length (donations st) \<le> 100 \<longrightarrow> length (donations (snd (run H S es st))) \<le> 100)
   \<and> (length ds < 100 \<longrightarrow> push_and_shift d ds = ds @ [d])
   \<and> (length ds = 100 \<longrightarrow> push_and_shift d ds = tl ds @ [d])
   \<and> (length xs = 101 \<and> (\<forall>(now, e) \<in> set xs. t0 \<le> timestamp e \<and> now - t0 < 300000) \<longrightarrow>
        admit_all xs [] = tl (map snd xs)
        \<and> length (admit_all xs []) = 100
        \<and> (distinct (map (don_id \<circ> snd) xs) \<longrightarrow>
             don_id (snd (hd xs)) \<notin> don_id ` set (admit_all xs [])))"
proof -
  have "don_id (snd (hd xs)) \<notin> don_id ` set (tl (map snd xs))"
    if "length xs = 101" and "distinct (map (don_id \<circ> snd) xs)"
  proof -
    from that have "distinct (map don_id (map snd xs))" and "map snd xs \<noteq> []"
      by auto
    then have "don_id (hd (map snd xs)) \<notin> don_id ` set (tl (map snd xs))"
      by (rule first_absent)
    with that show ?thesis by (cases xs) auto
  qed
  then show ?thesis
    using length_store_donation[of ds now d] run_capacity[of st H S es]
      push_and_shift_below[of ds d] push_and_shift_full[of ds d] admit_101[of xs t0]
    by auto
qed

lemma burst_distinct: "distinct (map (don_id \<circ> snd) burst)"
  by (simp add: burst_def distinct_map comp_def donation_at_def inj_on_def)

theorem store_capacity_witness:
  "length (store_donation 0 (donation_at 0) []) \<le> 100
   \<and> length (donations (snd (run zero_hmac zero_sha [Submit plain_post, Poll keyed_get] initial_state))) \<le> 100
   \<and> push_and_shift (donation_at 7) [donation_at 3] = [donation_at 3, donation_at 7]
   \<and> push_and_shift (donation_at 7) (replicate 100 (donation_at 3))
       = replicate 99 (donation_at 3) @ [donation_at 7]
   \<and> length burst = 101
   \<and> admit_all burst [] = map donation_at [Suc 0..<101]
   \<and> length (admit_all burst []) = 100
   \<and> don_id (donation_at 0) \<notin> don_id ` set (admit_all burst [])"
proof -
  have len: "length burst = 101" by (simp add: burst_def)
  have fresh: "\<forall>(now, e) \<in> set burst. 0 \<le> timestamp e \<and> now - 0 < 300000"
    by (auto simp: burst_def donation_at_def)
  have upt: "[0..<101] = 0 # [Suc 0..<101]"
    by (rule upt_conv_Cons) simp
  have hd: "snd (hd burst) = donation_at 0"
    by (simp add: burst_def upt)
  have tl: "tl (map snd burst) = map donation_at [Suc 0..<101]"
    by (simp add: burst_def comp_def upt)
  show ?thesis
    using store_capacity_fifo [of "[]" 0 "donation_at 0" initial_state zero_hmac zero_sha
        "[Submit plain_post, Poll keyed_get]" burst 0]
      store_capacity_fifo [of "[donation_at 3]" 0 "donation_at 7" initial_state zero_hmac zero_sha
        "[]" burst 0]
      store_capacity_fifo [of "replicate 100 (donation_at 3)" 0 "donation_at 7" initial_state
        zero_hmac zero_sha "[]" burst 0]
      len fresh hd tl burst_distinct
    by (simp add: initial_state_def)
qed

lemma admit_all_append: "admit_all (xs @ ys) ds = admit_all ys (admit_all xs ds)"
  by (induction xs arbitrary: ds) auto

text \<open>
  Claim C6 as stated fails: when the last of 101 admissions comes five minutes after the first
  hundred, its sweep removes everything older, and the store has size 1 and not 100.
\<close>

theorem stale_burst_leaves_one:
  "length stale_burst = 101 \<and> admit_all stale_burst [] = [late_donation]"
proof -
  let ?first = "map (\<lambda>n. (int n, donation_at n)) [0..<100]"
  have "\<forall>(now, e) \<in> set ?first. 0 \<le> timestamp e \<and> now - 0 < DONATION_EXPIRY"
    by (auto simp: donation_at_def DONATION_EXPIRY_def)
  then have "admit_all ?first [] = drop (length ([] :: donation list) + length ?first - 100) ([] @ map snd ?first)"
    by (rule admit_all_fresh) simp_all
  then have first: "admit_all ?first [] = map donation_at [0..<100]"
    by (simp add: comp_def)
  have upt: "[0..<100] = 0 # [Suc 0..<100]"
    by (rule upt_conv_Cons) simp
  have shift: "push_and_shift late_donation (map donation_at [0..<100])
      = map donation_at [Suc 0..<100] @ [late_donation]"
    by (simp add: push_and_shift_full upt)
  have "store_donation 300100 late_donation (map donation_at [0..<100]) = [late_donation]"
    unfolding store_donation_def shift
    by (simp add: cleanupExpiredDonations_def DONATION_EXPIRY_def filter_map comp_def
        donation_at_def late_donation_def)
  then show ?thesis
    by (simp add: stale_burst_def admit_all_append first)
qed

section \<open>Expiry\<close>

lemma map_don_id_mark_processed: "map don_id (mark_processed ds) = map don_id ds"
  by (induction ds) (simp_all add: mark_processed_def)

lemma map_timestamp_mark_processed: "map timestamp (mark_processed ds) = map timestamp ds"
  by (induction ds) (simp_all add: mark_processed_def)



lemmas donations_simps =
  donations_handler_def validateApiKey_def checkRobloxRateLimit_def take_unprocessed_def
  mark_processed_def public_fields_def ROBLOX_RATE_LIMIT_def



section \<open>Duplicate suppression\<close>

lemma webhook_received_state:
  assumes "received (fst (webhook H rq st))"
  defines "k \<equiv> (str_of (prop_of (req_body rq) donor_name), num_of (prop_of (req_body rq) amount),
                 now_key rq)"
  shows "k \<notin> recentDonationIds st"
    and "recentDonationIds (snd (webhook H rq st)) = insert k (recentDonationIds st)"
    and "pendingTimeouts (snd (webhook H rq st))
          = pendingTimeouts st @ [(timer_tick rq + DUPLICATE_CHECK_WINDOW, k)]"
    and "\<exists>d. donations (snd (webhook H rq st)) = store_donation (now_sweep rq) d (donations st)
          \<and> timestamp d = now_stamp rq \<and> \<not> processed d
          \<and> don_id d = hex (word_bytes 16 (randomBytes16 rq))"
  using assms
  by (auto simp: webhook_def checkRateLimit_def isDuplicate_def Let_def
      split: if_splits sum.splits prod.splits)

lemma webhook_duplicate:
  assumes "req_method rq = POST"
    and "fst (checkRateLimit (now_limit rq) (or_str (x_forwarded_for rq) (remoteAddress rq)) st)"
    and "signature_branch H rq = Inr True"
    and "validateDonationData (req_body rq)"
    and "(str_of (prop_of (req_body rq) donor_name), num_of (prop_of (req_body rq) amount), now_key rq)
          \<in> recentDonationIds st"
  shows "fst (webhook H rq st) = DuplicateIgnored"
    and "donations (snd (webhook H rq st)) = donations st"
  using assms
  by (auto simp: webhook_def checkRateLimit_def isDuplicate_def Let_def
      split: if_splits sum.splits prod.splits)

lemma runTimeouts_keeps:
  assumes "k \<in> recentDonationIds st"
    and "\<forall>(due, k') \<in> set (pendingTimeouts st). k' = k \<longrightarrow> tick < due"
  shows "k \<in> recentDonationIds (runTimeouts tick st)"
  using assms by (auto simp: runTimeouts_def)

text \<open>
  What the duplicate check does suppress. Take a state in which every pending timeout belongs
  to a recorded key, a first submission that is received, and a second one with the same donor
  name, the same amount and the same millisecond in its key, made before the timeout of the
  first is due (600000 ms on the timer's clock) and passing the rate limit, the signature branch
  and the validator. Then the second is answered with the duplicate acknowledgement and leaves
  the store as the first left it; when the first found fewer than 100 donations, none of them
  expired, the store has grown by exactly one.
\<close>

lemma resubmission_with_same_key:
  fixes rq1 rq2 :: webhook_request and st :: state and tick :: int
    and H :: "byte list \<Rightarrow> byte list \<Rightarrow> 256 word"
  defines "st1 \<equiv> runTimeouts tick (snd (webhook H rq1 st))"
  assumes timers: "snd ` set (pendingTimeouts st) \<subseteq> recentDonationIds st"
    and first: "received (fst (webhook H rq1 st))"
    and window: "tick < timer_tick rq1 + 600000"
    and name: "prop_of (req_body rq2) donor_name = prop_of (req_body rq1) donor_name"
    and amt: "prop_of (req_body rq2) amount = prop_of (req_body rq1) amount"
    and ms: "now_key rq2 = now_key rq1"
    and post: "req_method rq2 = POST"
    and allowed: "fst (checkRateLimit (now_limit rq2)
                        (or_str (x_forwarded_for rq2) (remoteAddress rq2)) st1)"
    and sig: "signature_branch H rq2 = Inr True"
    and valid: "validateDonationData (req_body rq2)"
  shows "fst (webhook H rq2 st1) = DuplicateIgnored
    \<and> donations (snd (webhook H rq2 st1)) = donations (snd (webhook H rq1 st))
    \<and> (length (donations st) < 100
         \<and> list_all (\<lambda>e. now_sweep rq1 - timestamp e < 300000) (donations st)
         \<and> now_sweep rq1 - now_stamp rq1 < 300000 \<longrightarrow>
        length (donations (snd (webhook H rq2 st1))) = length (donations st) + 1)"
proof -
  let ?k = "(str_of (prop_of (req_body rq1) donor_name), num_of (prop_of (req_body rq1) amount),
             now_key rq1)"
  let ?st' = "snd (webhook H rq1 st)"
  note r = webhook_received_state[OF first]
  have "\<forall>(due, k') \<in> set (pendingTimeouts ?st'). k' = ?k \<longrightarrow> tick < due"
    using timers r(1) window by (auto simp: r(3) DUPLICATE_CHECK_WINDOW_def)
  moreover have "?k \<in> recentDonationIds ?st'"
    by (simp add: r(2))
  ultimately have "?k \<in> recentDonationIds st1"
    unfolding st1_def by (intro runTimeouts_keeps)
  then have k: "(str_of (prop_of (req_body rq2) donor_name), num_of (prop_of (req_body rq2) amount),
      now_key rq2) \<in> recentDonationIds st1"
    by (simp add: name amt ms)
  have same: "donations st1 = donations ?st'"
    by (simp add: st1_def runTimeouts_def)
  have dup: "fst (webhook H rq2 st1) = DuplicateIgnored"
    and keep: "donations (snd (webhook H rq2 st1)) = donations st1"
    using webhook_duplicate[OF post allowed sig valid k] by simp_all
  have "length (donations ?st') = length (donations st) + 1"
    if "length (donations st) < 100"
      and "list_all (\<lambda>e. now_sweep rq1 - timestamp e < 300000) (donations st)"
      and "now_sweep rq1 - now_stamp rq1 < 300000"
  proof -
    from r(4) obtain d where d: "donations ?st' = store_donation (now_sweep rq1) d (donations st)"
      "timestamp d = now_stamp rq1" by blast
    show ?thesis
      using that d
      by (simp add: store_donation_def push_and_shift_below cleanupExpiredDonations_def
          DONATION_EXPIRY_def list_all_iff)
  qed
  with dup keep same show ?thesis by simp
qed

lemma resubmission_example:
  "received (fst (webhook zero_hmac plain_post initial_state))
   \<and> fst (webhook zero_hmac retry_post (runTimeouts 0 (snd (webhook zero_hmac plain_post initial_state))))
       = DuplicateIgnored
   \<and> length (donations (snd (webhook zero_hmac retry_post
        (runTimeouts 0 (snd (webhook zero_hmac plain_post initial_state)))))) = 1"
  using resubmission_with_same_key [where H = zero_hmac and ?rq1.0 = plain_post and ?rq2.0 = retry_post
      and st = initial_state and tick = 0]
  by (simp add: example_simps webhook_simps runTimeouts_def)

lemma webhook_duplicate_recorded:
  "fst (webhook H rq st) = DuplicateIgnored \<Longrightarrow>
     (str_of (prop_of (req_body rq) donor_name), num_of (prop_of (req_body rq) amount), now_key rq)
       \<in> recentDonationIds st"
  by (auto simp: webhook_def checkRateLimit_def isDuplicate_def Let_def
      split: if_splits sum.splits prod.splits)

lemma runTimeouts_subset: "recentDonationIds (runTimeouts tick st) \<subseteq> recentDonationIds st"
  by (auto simp: runTimeouts_def)

text \<open>
  Claim C4 at its failing inputs. The code keeps a recorded key for ten minutes
  (\<open>DUPLICATE_CHECK_WINDOW\<close>), but the key holds the millisecond at which the handler reads
  the clock: after a received submission, a second submission whose handler reads another
  millisecond, and whose key was not recorded before the first, is never answered with the
  duplicate acknowledgement, whatever its donor name and amount and however soon it comes.
\<close>

theorem later_millisecond_never_duplicate:
  assumes first: "received (fst (webhook H rq1 st))"
    and later: "now_key rq2 \<noteq> now_key rq1"
    and fresh: "(str_of (prop_of (req_body rq2) donor_name), num_of (prop_of (req_body rq2) amount),
                 now_key rq2) \<notin> recentDonationIds st"
  shows "fst (webhook H rq2 (runTimeouts tick (snd (webhook H rq1 st)))) \<noteq> DuplicateIgnored"
proof
  let ?k2 = "(str_of (prop_of (req_body rq2) donor_name), num_of (prop_of (req_body rq2) amount),
              now_key rq2)"
  assume "fst (webhook H rq2 (runTimeouts tick (snd (webhook H rq1 st)))) = DuplicateIgnored"
  then have "?k2 \<in> recentDonationIds (runTimeouts tick (snd (webhook H rq1 st)))"
    by (rule webhook_duplicate_recorded)
  then have "?k2 \<in> recentDonationIds (snd (webhook H rq1 st))"
    using runTimeouts_subset by blast
  then show False
    using webhook_received_state(2)[OF first] later fresh by simp
qed

text \<open>
  The same donor name and amount submitted again one millisecond later, well within ten
  minutes: the second submission is received like the first, and the store holds both.
\<close>

theorem same_pair_next_millisecond_stored_twice:
  "prop_of (req_body next_post) donor_name = prop_of (req_body plain_post) donor_name
   \<and> prop_of (req_body next_post) amount = prop_of (req_body plain_post) amount
   \<and> received (fst (webhook zero_hmac plain_post initial_state))
   \<and> fst (webhook zero_hmac next_post (runTimeouts 1 (snd (webhook zero_hmac plain_post initial_state))))
       \<noteq> DuplicateIgnored
   \<and> received (fst (webhook zero_hmac next_post (snd (webhook zero_hmac plain_post initial_state))))
   \<and> map timestamp (donations (snd (webhook zero_hmac next_post
        (snd (webhook zero_hmac plain_post initial_state))))) = [0, 1]"
  using later_millisecond_never_duplicate [where H = zero_hmac and ?rq1.0 = plain_post
      and ?rq2.0 = next_post and st = initial_state and tick = 1]
  by (simp add: example_simps webhook_simps)

section \<open>Delivery to the consumer\<close>

lemma mark_processed_eq: "mark_processed ds = map (\<lambda>d. d\<lparr>processed := True\<rparr>) ds"
  by (induction ds) (simp_all add: mark_processed_def)

lemma pending_ids_mark_processed: "pending_ids (mark_processed ds) = []"
  by (simp add: pending_ids_def mark_processed_eq filter_map comp_def)

lemma set_pending_ids: "set (pending_ids ds) \<subseteq> set (map don_id ds)"
  by (auto simp: pending_ids_def)

lemma distinct_pending_ids: "distinct (map don_id ds) \<Longrightarrow> distinct (pending_ids ds)"
  by (simp add: pending_ids_def distinct_map_filter)

lemma store_donation_sublist:
  "\<exists>P. store_donation now d ds = filter P (ds @ [d])
     \<or> store_donation now d ds = filter P (tl (ds @ [d]))"
  by (auto simp: store_donation_def push_and_shift_def cleanupExpiredDonations_def Let_def)

lemma set_store_donation: "set (store_donation now d ds) \<subseteq> insert d (set ds)"
  using set_push_and_shift[of d ds]
  by (auto simp: store_donation_def cleanupExpiredDonations_def)

lemma ids_store_donation:
  "set (map don_id (store_donation now d ds)) \<subseteq> insert (don_id d) (set (map don_id ds))"
  using set_store_donation[of now d ds] by auto

lemma distinct_store_donation:
  assumes "distinct (map don_id ds)" and "don_id d \<notin> set (map don_id ds)"
  shows "distinct (map don_id (store_donation now d ds))"
proof -
  from assms have all: "distinct (map don_id (ds @ [d]))" by simp
  then have "distinct (map don_id (tl (ds @ [d])))"
    by (simp only: map_tl distinct_tl)
  with all show ?thesis
    using store_donation_sublist[of now d ds] by (auto simp: distinct_map_filter)
qed

lemma pending_store_donation:
  "set (pending_ids (store_donation now d ds)) \<subseteq> insert (don_id d) (set (pending_ids ds))"
  using set_store_donation[of now d ds] by (auto simp: pending_ids_def)

lemma webhook_effect:
  "donations (snd (webhook H rq st)) = donations st
   \<or> (\<exists>d. donations (snd (webhook H rq st)) = store_donation (now_sweep rq) d (donations st)
        \<and> don_id d = hex (word_bytes 16 (randomBytes16 rq)) \<and> timestamp d = now_stamp rq)"
  by (auto simp: webhook_def checkRateLimit_def isDuplicate_def Let_def
      split: if_splits sum.splits prod.splits)

lemma donations_handler_effect:
  "(sent_ids (fst (donations_handler S q st)) = []
      \<and> donations (snd (donations_handler S q st)) = donations st)
   \<or> (sent_ids (fst (donations_handler S q st)) = pending_ids (donations st)
      \<and> donations (snd (donations_handler S q st)) = mark_processed (donations st))"
  by (auto simp: donations_handler_def checkRobloxRateLimit_def take_unprocessed_def Let_def
      pending_ids_def public_fields_def comp_def split: if_splits prod.splits)

lemma webhook_sends_nothing: "sent_ids (fst (webhook H rq st)) = []"
  by (auto simp: webhook_def checkRateLimit_def isDuplicate_def Let_def
      split: if_splits sum.splits prod.splits)

lemma step_effect:
  "(delivered (fst (step H S e st)) = []
      \<and> (donations (snd (step H S e st)) = donations st
          \<or> (\<exists>now d. donations (snd (step H S e st)) = store_donation now d (donations st)
                \<and> drawn_id e = [don_id d])))
   \<or> (delivered (fst (step H S e st)) = pending_ids (donations st)
      \<and> donations (snd (step H S e st)) = mark_processed (donations st))"
proof (cases e)
  case (Submit rq)
  have out: "delivered (fst (step H S e st)) = []"
    using Submit webhook_sends_nothing[of H rq st] by (simp add: delivered_def split_beta)
  have st': "donations (snd (step H S e st)) = donations (snd (webhook H rq st))"
    using Submit by (simp add: split_beta)
  from webhook_effect[of H rq st] show ?thesis
  proof
    assume "donations (snd (webhook H rq st)) = donations st"
    then show ?thesis using out st' by simp
  next
    assume "\<exists>d. donations (snd (webhook H rq st)) = store_donation (now_sweep rq) d (donations st)
        \<and> don_id d = hex (word_bytes 16 (randomBytes16 rq)) \<and> timestamp d = now_stamp rq"
    then obtain d where "donations (snd (webhook H rq st)) = store_donation (now_sweep rq) d (donations st)"
      and "don_id d = hex (word_bytes 16 (randomBytes16 rq))"
      by blast
    then have "donations (snd (step H S e st)) = store_donation (now_sweep rq) d (donations st)
        \<and> drawn_id e = [don_id d]"
      using st' Submit by simp
    then show ?thesis using out by blast
  qed
next
  case (Poll q)
  then show ?thesis
    using donations_handler_effect[of S q st]
    by (auto simp: delivered_def split_beta)
next
  case (Timers tick)
  then show ?thesis
    by (simp add: delivered_def runTimeouts_def)
qed

lemma step_invariants:
  assumes d: "distinct (map don_id (donations st))"
    and fresh: "set (drawn_id e) \<inter> set (map don_id (donations st)) = {}"
  shows "distinct (map don_id (donations (snd (step H S e st))))"
    and "set (map don_id (donations (snd (step H S e st))))
          \<subseteq> set (map don_id (donations st)) \<union> set (drawn_id e)"
    and "distinct (delivered (fst (step H S e st)))"
    and "set (delivered (fst (step H S e st))) \<subseteq> set (pending_ids (donations st))"
    and "set (pending_ids (donations (snd (step H S e st))))
          \<subseteq> (set (pending_ids (donations st)) - set (delivered (fst (step H S e st))))
             \<union> set (drawn_id e)"
proof -
  let ?ds = "donations st" and ?ds' = "donations (snd (step H S e st))"
  let ?out = "delivered (fst (step H S e st))"
  consider (same) "?out = []" "?ds' = ?ds"
    | (stored) now d where "?out = []" "?ds' = store_donation now d ?ds" "drawn_id e = [don_id d]"
    | (sent) "?out = pending_ids ?ds" "?ds' = mark_processed ?ds"
    using step_effect[of H S e st] by blast
  then have "distinct (map don_id ?ds') \<and> set (map don_id ?ds') \<subseteq> set (map don_id ?ds) \<union> set (drawn_id e)
      \<and> distinct ?out \<and> set ?out \<subseteq> set (pending_ids ?ds)
      \<and> set (pending_ids ?ds') \<subseteq> (set (pending_ids ?ds) - set ?out) \<union> set (drawn_id e)"
  proof cases
    case same
    with d show ?thesis by auto
  next
    case stored
    from fresh stored(3) have "don_id d \<notin> set (map don_id ?ds)" by simp
    with d have "distinct (map don_id (store_donation now d ?ds))"
      by (rule distinct_store_donation)
    then show ?thesis
      using stored ids_store_donation[of now d ?ds] pending_store_donation[of now d ?ds]
      by auto
  next
    case sent
    with d show ?thesis
      by (simp add: map_don_id_mark_processed pending_ids_mark_processed distinct_pending_ids)
  qed
  then show "distinct (map don_id ?ds')"
    and "set (map don_id ?ds') \<subseteq> set (map don_id ?ds) \<union> set (drawn_id e)"
    and "distinct ?out" and "set ?out \<subseteq> set (pending_ids ?ds)"
    and "set (pending_ids ?ds') \<subseteq> (set (pending_ids ?ds) - set ?out) \<union> set (drawn_id e)"
    by blast+
qed

lemma run_delivers_once:
  assumes "distinct (map don_id (donations st))"
    and "distinct (drawn_ids es)"
    and "set (drawn_ids es) \<inter> set (map don_id (donations st)) = {}"
  shows "distinct (delivered (fst (run H S es st)))
    \<and> set (delivered (fst (run H S es st))) \<subseteq> set (pending_ids (donations st)) \<union> set (drawn_ids es)"
  using assms
proof (induction es arbitrary: st)
  case Nil
  then show ?case by (simp add: delivered_def)
next
  case (Cons e es)
  let ?st' = "snd (step H S e st)"
  let ?out = "delivered (fst (step H S e st))"
  let ?rest = "delivered (fst (run H S es ?st'))"
  have dr: "distinct (drawn_id e)" "distinct (drawn_ids es)"
    "set (drawn_id e) \<inter> set (drawn_ids es) = {}"
    using Cons.prems(2) by (auto simp: drawn_ids_def)
  have fr: "set (drawn_id e) \<inter> set (map don_id (donations st)) = {}"
    "set (drawn_ids es) \<inter> set (map don_id (donations st)) = {}"
    using Cons.prems(3) by (auto simp: drawn_ids_def)
  note inv = step_invariants[OF Cons.prems(1) fr(1), of H S]
  have "set (drawn_ids es) \<inter> set (map don_id (donations ?st')) = {}"
    using inv(2) fr(2) dr(3) by auto
  with inv(1) dr(2)
  have IH: "distinct ?rest"
    "set ?rest \<subseteq> set (pending_ids (donations ?st')) \<union> set (drawn_ids es)"
    using Cons.IH[of ?st'] by auto
  have out_old: "set ?out \<subseteq> set (map don_id (donations st))"
    using inv(4) set_pending_ids[of "donations st"] by blast
  have disj: "set ?out \<inter> set ?rest = {}"
    using IH(2) inv(5) out_old fr by blast
  have split: "delivered (fst (run H S (e # es) st)) = ?out @ ?rest"
    by (simp add: split_beta delivered_def)
  have sub: "set (?out @ ?rest) \<subseteq> set (pending_ids (donations st)) \<union> set (drawn_ids (e # es))"
    using inv(4) inv(5) IH(2) by (auto simp: drawn_ids_def)
  show ?case
    unfolding split using inv(3) IH(1) disj sub by simp
qed

lemma sorted_store_donation:
  assumes "sorted (map timestamp ds)" and "list_all (\<lambda>e. timestamp e \<le> timestamp d) ds"
  shows "sorted (map timestamp (store_donation now d ds))"
proof -
  from assms have all: "sorted (map timestamp (ds @ [d]))"
    by (simp add: sorted_append list_all_iff)
  then have "sorted (map timestamp (tl (ds @ [d])))"
    by (simp only: map_tl sorted_tl)
  with all have "sorted (map timestamp (push_and_shift d ds))"
    by (simp add: push_and_shift_def Let_def)
  then show ?thesis
    unfolding store_donation_def cleanupExpiredDonations_def by (rule sorted_filter)
qed

lemma webhook_sorted:
  assumes "sorted (map timestamp (donations st))"
    and "list_all (\<lambda>e. timestamp e \<le> now_stamp rq) (donations st)"
  shows "sorted (map timestamp (donations (snd (webhook H rq st))))"
  using webhook_effect[of H rq st] assms sorted_store_donation[of "donations st"]
  by auto

lemma take_twice: "fst (take_unprocessed (snd (take_unprocessed ds))) = []"
  by (simp add: take_unprocessed_def mark_processed_eq filter_map comp_def)

lemma donations_handler_sent:
  "fst (donations_handler S q st) = DonationsSent ps \<Longrightarrow>
     ps = map public_fields (fst (take_unprocessed (donations st)))
     \<and> donations (snd (donations_handler S q st)) = snd (take_unprocessed (donations st))"
  by (auto simp: donations_handler_def checkRobloxRateLimit_def Let_def
      split: if_splits prod.splits)

lemma donations_handler_timestamps:
  "map timestamp (donations (snd (donations_handler S q st))) = map timestamp (donations st)"
  by (auto simp: donations_handler_def checkRobloxRateLimit_def take_unprocessed_def Let_def
      map_timestamp_mark_processed split: if_splits prod.splits)

lemma step_keeps_sorted:
  assumes "sorted (map timestamp (donations st) @ stamp_of e @ later)"
  shows "sorted (map timestamp (donations (snd (step H S e st))) @ later)"
proof (cases e)
  case (Submit rq)
  let ?ds = "donations st" and ?ds' = "donations (snd (webhook H rq st))"
  from assms Submit have all: "sorted (map timestamp ?ds @ now_stamp rq # later)"
    by simp
  then have parts: "sorted (map timestamp ?ds)" "sorted later"
    "\<forall>t \<in> set (map timestamp ?ds). t \<le> now_stamp rq"
    "\<forall>t \<in> set (map timestamp ?ds). \<forall>u \<in> set later. t \<le> u"
    "\<forall>u \<in> set later. now_stamp rq \<le> u"
    by (auto simp: sorted_append)
  from webhook_effect[of H rq st] have "sorted (map timestamp ?ds' @ later)"
  proof
    assume "?ds' = ?ds"
    with parts show ?thesis by (auto simp: sorted_append)
  next
    assume "\<exists>d. ?ds' = store_donation (now_sweep rq) d ?ds
        \<and> don_id d = hex (word_bytes 16 (randomBytes16 rq)) \<and> timestamp d = now_stamp rq"
    then obtain d where d: "?ds' = store_donation (now_sweep rq) d ?ds" "timestamp d = now_stamp rq"
      by blast
    have "sorted (map timestamp (store_donation (now_sweep rq) d ?ds))"
      using parts(1,3) d(2) by (intro sorted_store_donation) (auto simp: list_all_iff)
    moreover have "set (store_donation (now_sweep rq) d ?ds) \<subseteq> insert d (set ?ds)"
      by (rule set_store_donation)
    ultimately show ?thesis
      using parts d by (fastforce simp: sorted_append)
  qed
  with Submit show ?thesis by (simp add: split_beta)
next
  case (Poll q)
  with assms show ?thesis
    by (simp add: split_beta donations_handler_timestamps)
next
  case (Timers tick)
  with assms show ?thesis
    by (simp add: runTimeouts_def)
qed

lemma run_keeps_sorted:
  "sorted (map timestamp (donations st) @ stamps es) \<Longrightarrow>
     sorted (map timestamp (donations (snd (run H S es st))))"
proof (induction es arbitrary: st)
  case Nil
  then show ?case by (simp add: stamps_def)
next
  case (Cons e es)
  from Cons.prems have "sorted (map timestamp (donations st) @ stamp_of e @ stamps es)"
    by (simp add: stamps_def)
  then have "sorted (map timestamp (donations (snd (step H S e st))) @ stamps es)"
    by (rule step_keeps_sorted)
  then have "sorted (map timestamp (donations (snd (run H S es (snd (step H S e st))))))"
    by (rule Cons.IH)
  then show ?case by (simp add: split_beta)
qed

text \<open>
  Claim C5, as the code has it. What is taken is exactly the donations whose \<open>processed\<close>
  flag is false, in the order of the store, the order of insertion. That order is ascending in
  \<open>timestamp\<close> when the store is, and the store of a run is when it was at the start and the
  clock readings stamped on the submissions of the run never decrease and are not below the
  timestamps already stored. Every donation of the store is marked processed and nothing else
  about it changes; taking again at once gives the empty sequence; a successful GET sends the
  public fields of what is taken and stores the marked donations. In a run of the process that
  starts from a store with distinct ids and draws distinct fresh ids, no id is handed to the
  consumer twice.
\<close>

theorem take_unprocessed_in_store_order:
  "fst (take_unprocessed ds) = filter (\<lambda>d. \<not> processed d) ds
   \<and> (sorted (map timestamp ds) \<longrightarrow> sorted (map timestamp (fst (take_unprocessed ds))))
   \<and> (sorted (map timestamp (donations st) @ stamps es) \<longrightarrow>
        sorted (map timestamp (donations (snd (run H S es st))))
        \<and> sorted (map timestamp (fst (take_unprocessed (donations (snd (run H S es st)))))))
   \<and> snd (take_unprocessed ds) = map (\<lambda>d. d\<lparr>processed := True\<rparr>) ds
   \<and> fst (take_unprocessed (snd (take_unprocessed ds))) = []
   \<and> (fst (donations_handler S q st) = DonationsSent ps \<longrightarrow>
        ps = map public_fields (fst (take_unprocessed (donations st)))
        \<and> donations (snd (donations_handler S q st)) = snd (take_unprocessed (donations st)))
   \<and> (distinct (map don_id (donations st)) \<and> distinct (drawn_ids es)
        \<and> set (drawn_ids es) \<inter> set (map don_id (donations st)) = {} \<longrightarrow>
        distinct (delivered (fst (run H S es st))))"
proof -
  have sel: "fst (take_unprocessed xs) = filter (\<lambda>d. \<not> processed d) xs" for xs
    by (simp add: take_unprocessed_def)
  have ord: "sorted (map timestamp xs) \<Longrightarrow> sorted (map timestamp (fst (take_unprocessed xs)))" for xs
    by (simp add: take_unprocessed_def sorted_filter)
  have "snd (take_unprocessed ds) = map (\<lambda>d. d\<lparr>processed := True\<rparr>) ds"
    by (simp add: take_unprocessed_def mark_processed_eq)
  then show ?thesis
    using sel[of ds] ord[of ds] ord[of "donations (snd (run H S es st))"]
      run_keeps_sorted[of st es H S] take_twice[of ds] donations_handler_sent[of S q st ps]
      run_delivers_once[of st es H S]
    by blast
qed

theorem take_unprocessed_witness:
  "fst (take_unprocessed [donation_at 1, (donation_at 2)\<lparr>processed := True\<rparr>, donation_at 3])
     = [donation_at 1, donation_at 3]
   \<and> map timestamp (fst (take_unprocessed
        [donation_at 1, (donation_at 2)\<lparr>processed := True\<rparr>, donation_at 3])) = [1, 3]
   \<and> map processed (snd (take_unprocessed
        [donation_at 1, (donation_at 2)\<lparr>processed := True\<rparr>, donation_at 3])) = [True, True, True]
   \<and> fst (take_unprocessed (snd (take_unprocessed
        [donation_at 1, (donation_at 2)\<lparr>processed := True\<rparr>, donation_at 3]))) = []
   \<and> fst (donations_handler zero_sha keyed_get
        (initial_state\<lparr>donations := [donation_at 1, (donation_at 2)\<lparr>processed := True\<rparr>]\<rparr>))
      = DonationsSent [public_fields (donation_at 1)]
   \<and> stamps [Submit next_post, Poll keyed_get] = [1]
   \<and> map timestamp (donations (snd (run zero_hmac zero_sha [Submit next_post, Poll keyed_get]
        (initial_state\<lparr>donations := [donation_at 0, (donation_at 1)\<lparr>processed := True\<rparr>]\<rparr>))))
      = [0, 1, 1]
   \<and> delivered (fst (run zero_hmac zero_sha [Submit plain_post, Poll keyed_get]
        (initial_state\<lparr>donations := [donation_at 1, (donation_at 2)\<lparr>processed := True\<rparr>]\<rparr>)))
      = [replicate 1 0x61, replicate 32 0x30]"
  using take_unprocessed_in_store_order
    [where ds = "[donation_at 1, (donation_at 2)\<lparr>processed := True\<rparr>, donation_at 3]"
      and S = zero_sha and q = keyed_get and ps = "[public_fields (donation_at 1)]"
      and st = "initial_state\<lparr>donations := [donation_at 1, (donation_at 2)\<lparr>processed := True\<rparr>]\<rparr>"
      and H = zero_hmac and es = "[Submit plain_post, Poll keyed_get]"]
    take_unprocessed_in_store_order
    [where ds = "[]" and S = zero_sha and q = keyed_get and ps = "[]"
      and st = "initial_state\<lparr>donations := [donation_at 0, (donation_at 1)\<lparr>processed := True\<rparr>]\<rparr>"
      and H = zero_hmac and es = "[Submit next_post, Poll keyed_get]"]
  by (simp add: example_simps webhook_simps donations_simps donation_at_def drawn_ids_def
      delivered_def stamps_def split_beta)

text \<open>
  Claim C5 as stated fails: \<open>Date.now()\<close> is the clock of the machine, and when it is set
  back between two admissions the store, and what is taken from it, is in the order of
  insertion and not in ascending order of \<open>timestamp\<close>.
\<close>

theorem clock_set_back_breaks_order:
  "map timestamp (donations (snd (webhook zero_hmac post_at_5
       (snd (webhook zero_hmac post_at_10 initial_state))))) = [10, 5]
   \<and> map timestamp (fst (take_unprocessed (donations (snd (webhook zero_hmac post_at_5
       (snd (webhook zero_hmac post_at_10 initial_state))))))) = [10, 5]
   \<and> \<not> sorted (map timestamp (fst (take_unprocessed (donations (snd (webhook zero_hmac post_at_5
       (snd (webhook zero_hmac post_at_10 initial_state))))))))"
  by (simp add: example_simps webhook_simps take_unprocessed_def)

end
